theory Spec2Isabelle
  imports Main "HOL-Library.Word"
begin

section \<open>Machine types\<close>

text \<open>
  The driver (drivers/mtd/devices/m25p80.c) computes with \<open>u8\<close>, \<open>unsigned\<close>
  (32 bits), \<open>int\<close> (32 bits, read through \<open>sint\<close> and compared with \<open><s\<close>),
  \<open>loff_t\<close> (64 bits) and \<open>size_t\<close>.  The width of \<open>size_t\<close> depends on the
  target, so it stays a type parameter \<open>'s\<close>.  Conversions between \<open>int\<close> and
  \<open>unsigned\<close> keep the bit pattern, so both are the same word type here.
  The only signed operation that can overflow is \<open>len + 1\<close> at \<open>INT_MAX\<close> in
  the capacity checks; C leaves it undefined, the word addition here wraps, and
  the facts below about the check set that one length aside.
\<close>

type_synonym u8 = "8 word"
type_synonym u32 = "32 word"
type_synonym c_int = "32 word"
type_synonym loff_t = "64 word"

definition MAX_CMD_SIZE :: nat where
  "MAX_CMD_SIZE = 16"

text \<open>
  Modelled from the spec: the invalid-argument error.  \<open>EINVAL\<close> comes from
  linux/errno.h, which is not among the sources; the kernel numbers it 22.
\<close>

definition EINVAL :: c_int where
  "EINVAL = 22"

section \<open>Arrays and stores\<close>

text \<open>
  A C array is the list of its bytes.  \<open>fits buf off n\<close> says that the \<open>n\<close> bytes
  from offset \<open>off\<close> lie inside the array.  \<open>store_bytes\<close> is what \<open>memcpy\<close>,
  \<open>memset\<close> and a receiving transfer do to the array: bytes that land inside it
  are stored; bytes past its end leave the array and are not part of the modelled
  object, which the callers record in an \<open>overrun\<close> flag.
\<close>

definition fits :: "u8 list \<Rightarrow> nat \<Rightarrow> nat \<Rightarrow> bool" where
  "fits buf off n \<longleftrightarrow> off + n \<le> length buf"

definition store_bytes :: "u8 list \<Rightarrow> nat \<Rightarrow> u8 list \<Rightarrow> u8 list" where
  "store_bytes buf off bs =
     take (length buf) (take off buf @ bs @ drop (off + length bs) buf)"

text \<open>
  \<open>x >> n\<close> on an \<open>unsigned int\<close>.  C defines it for \<open>0 \<le> n < 32\<close> only;
  outside that range the result depends on the target's shifter and is the
  parameter \<open>oob\<close>.
\<close>

definition c_shr :: "(u32 \<Rightarrow> int \<Rightarrow> u32) \<Rightarrow> u32 \<Rightarrow> int \<Rightarrow> u32" where
  "c_shr oob x n = (if 0 \<le> n \<and> n < 32 then drop_bit (nat n) x else oob x n)"

section \<open>Data model\<close>

text \<open>
  Modelled from the spec: \<open>enum spi_nor_protocol\<close> and the macros
  \<open>SNOR_PROTO_CODE_FROM_PROTO\<close>, \<open>SNOR_PROTO_ADDR_FROM_PROTO\<close> and
  \<open>SNOR_PROTO_DATA_FROM_PROTO\<close> are declared in linux/mtd/spi-nor.h, which is not
  among the sources.  The spec's Protocol Descriptor decomposes into three lane
  widths (opcode phase, address phase, data phase); the three macros are the three
  projections.
\<close>

record spi_nor_protocol =
  SNOR_PROTO_CODE_FROM_PROTO :: u32
  SNOR_PROTO_ADDR_FROM_PROTO :: u32
  SNOR_PROTO_DATA_FROM_PROTO :: u32

text \<open>
  Modelled from the spec: \<open>struct spi_nor\<close> is declared in linux/mtd/spi-nor.h,
  which is not among the sources.  Only the fields that m25p80.c reads are kept:
  the opcodes are bytes, the address width and the dummy-cycle count are
  non-negative counts, and \<open>sst_write_second\<close> is the flag of the second half
  of a two-step program command.
\<close>

record spi_nor =
  addr_width :: nat
  erase_opcode :: u8
  read_opcode :: u8
  read_dummy :: nat
  program_opcode :: u8
  sst_write_second :: bool
  read_proto :: spi_nor_protocol
  write_proto :: spi_nor_protocol
  reg_proto :: spi_nor_protocol

text \<open>\<open>struct m25p\<close>: the scratch command buffer \<open>u8 command[MAX_CMD_SIZE]\<close>.\<close>

record m25p =
  command :: "u8 list"

text \<open>
  A buffer pointer of a transfer: \<open>NULL\<close>, \<open>&flash->command[i]\<close>, or the
  caller's data buffer.
\<close>

datatype bufref = NULL | Command nat | Caller

text \<open>
  Modelled from the spec: \<open>struct spi_transfer\<close> is declared in linux/spi/spi.h,
  which is not among the sources.  A Transfer Phase has a byte length, a
  direction (a send phase has a \<open>tx_buf\<close>, a receive phase an \<open>rx_buf\<close>), a lane
  width and a buffer reference.
\<close>

record spi_transfer =
  xfer_len :: u32
  tx_buf :: bufref
  rx_buf :: bufref
  tx_nbits :: u32
  rx_nbits :: u32

text \<open>\<open>memset(xfers, 0, sizeof(xfers))\<close> leaves every transfer like this.\<close>

definition zero_xfer :: spi_transfer where
  "zero_xfer = \<lparr>xfer_len = 0, tx_buf = NULL, rx_buf = NULL, tx_nbits = 0, rx_nbits = 0\<rparr>"

text \<open>
  Modelled from the spec: the Transport Executor.  \<open>spi_sync\<close>,
  \<open>spi_sync_transfer\<close> and \<open>spi_write\<close> belong to the kernel's SPI core
  (linux/spi/spi.h), which is not among the sources.  The transport is a
  parameter of every operation: given the phases, the bytes of the command
  buffer and the caller's send buffer, it reports a status (negative on
  failure), the message's \<open>actual_length\<close> and the bytes it received.
\<close>

record bus_result =
  status :: c_int
  actual_length :: u32
  rx_data :: "u8 list"

type_synonym transport = "spi_transfer list \<Rightarrow> u8 list \<Rightarrow> u8 list \<Rightarrow> bus_result"

section \<open>The driver\<close>

text \<open>
  \<open>m25p80_proto2nbits\<close>: the status and the three lane widths.  A caller that
  passes \<open>NULL\<close> for a width ignores that component.
\<close>

definition m25p80_proto2nbits :: "spi_nor_protocol \<Rightarrow> c_int \<times> u32 \<times> u32 \<times> u32" where
  "m25p80_proto2nbits proto =
     (0, SNOR_PROTO_CODE_FROM_PROTO proto, SNOR_PROTO_ADDR_FROM_PROTO proto,
      SNOR_PROTO_DATA_FROM_PROTO proto)"

text \<open>
  \<open>m25p_addr2cmd\<close>: four stores, whatever the address width.  The shift counts
  are \<open>int\<close> expressions over the promoted address width.
\<close>

definition m25p_addr2cmd :: "(u32 \<Rightarrow> int \<Rightarrow> u32) \<Rightarrow> spi_nor \<Rightarrow> u32 \<Rightarrow> u8 list \<Rightarrow> u8 list" where
  "m25p_addr2cmd oob nor addr cmd =
     (let cmd = cmd[1 := ucast (c_shr oob addr (int (addr_width nor) * 8 - 8))];
          cmd = cmd[2 := ucast (c_shr oob addr (int (addr_width nor) * 8 - 16))];
          cmd = cmd[3 := ucast (c_shr oob addr (int (addr_width nor) * 8 - 24))];
          cmd = cmd[4 := ucast (c_shr oob addr (int (addr_width nor) * 8 - 32))]
      in cmd)"

definition m25p_cmdsz :: "spi_nor \<Rightarrow> c_int" where
  "m25p_cmdsz nor = 1 + of_nat (addr_width nor)"

text \<open>The bytes of a buffer read most-significant byte first.\<close>

definition be_decode :: "u8 list \<Rightarrow> nat" where
  "be_decode bs = foldl (\<lambda>acc b. acc * 256 + unat b) 0 bs"

subsection \<open>Register read\<close>

record read_reg_result =
  rr_ret :: c_int
  rr_flash :: m25p
  rr_val :: "u8 list"
  rr_calls :: "spi_transfer list list"
  rr_overrun :: bool

text \<open>
  \<open>m25p80_read_reg\<close>.  \<open>val\<close> is the caller's output buffer, \<open>rr_calls\<close> the
  invocations of the transport, each with the phases it was given.  The receive
  phase targets \<open>&flash->command[1]\<close>, so the received bytes are stored there
  whatever the status; \<open>memcpy\<close> to \<open>val\<close> happens on the \<open>else\<close> branch only.
  A negative \<open>len\<close> converts to a length of at least \<open>unat len\<close>, beyond every
  array here.  \<open>dev_err\<close> only logs.
\<close>

definition m25p80_read_reg ::
  "transport \<Rightarrow> spi_nor \<Rightarrow> m25p \<Rightarrow> u8 \<Rightarrow> u8 list \<Rightarrow> c_int \<Rightarrow> read_reg_result" where
  "m25p80_read_reg spi nor flash code val len =
     (if of_nat MAX_CMD_SIZE <s len + 1 then
        \<lparr>rr_ret = - EINVAL, rr_flash = flash, rr_val = val, rr_calls = [], rr_overrun = False\<rparr>
      else
        (case m25p80_proto2nbits (reg_proto nor) of (ret, code_nbits, _, data_nbits) \<Rightarrow>
           if ret <s 0 then
             \<lparr>rr_ret = ret, rr_flash = flash, rr_val = val, rr_calls = [], rr_overrun = False\<rparr>
           else
             let xfers = replicate 2 zero_xfer;
                 cmd = (command flash)[0 := code];
                 xfers = xfers[0 := (xfers ! 0)\<lparr>xfer_len := 1, tx_buf := Command 0,
                                                tx_nbits := code_nbits\<rparr>];
                 xfers = xfers[1 := (xfers ! 1)\<lparr>xfer_len := len, rx_buf := Command 1,
                                                rx_nbits := data_nbits\<rparr>];
                 r = spi xfers cmd [];
                 rx = take (unat len) (rx_data r);
                 cmd' = store_bytes cmd 1 rx;
                 ret = status r
             in if ret <s 0 then
                  \<lparr>rr_ret = ret, rr_flash = \<lparr>command = cmd'\<rparr>, rr_val = val,
                   rr_calls = [xfers], rr_overrun = (\<not> fits cmd 1 (length rx))\<rparr>
                else
                  \<lparr>rr_ret = ret, rr_flash = \<lparr>command = cmd'\<rparr>,
                   rr_val = store_bytes val 0 (take (unat len) (drop 1 cmd')),
                   rr_calls = [xfers],
                   rr_overrun = (\<not> fits cmd 1 (length rx) \<or> \<not> fits cmd' 1 (unat len)
                                 \<or> \<not> fits val 0 (unat len))\<rparr>))"

subsection \<open>Register write\<close>

record write_reg_result =
  wr_ret :: c_int
  wr_flash :: m25p
  wr_calls :: "spi_transfer list list"
  wr_overrun :: bool

text \<open>
  \<open>m25p80_write_reg\<close>.  \<open>buf\<close> is \<open>None\<close> for a \<open>NULL\<close> payload pointer.
  Only the first \<open>num_xfers\<close> transfers are handed to the transport.
\<close>

definition m25p80_write_reg ::
  "transport \<Rightarrow> spi_nor \<Rightarrow> m25p \<Rightarrow> u8 \<Rightarrow> u8 list option \<Rightarrow> c_int \<Rightarrow> write_reg_result" where
  "m25p80_write_reg spi nor flash opcode buf len =
     (if buf \<noteq> None \<and> of_nat MAX_CMD_SIZE <s len + 1 then
        \<lparr>wr_ret = - EINVAL, wr_flash = flash, wr_calls = [], wr_overrun = False\<rparr>
      else
        (case m25p80_proto2nbits (reg_proto nor) of (ret, code_nbits, _, data_nbits) \<Rightarrow>
           if ret <s 0 then
             \<lparr>wr_ret = ret, wr_flash = flash, wr_calls = [], wr_overrun = False\<rparr>
           else
             let xfers = replicate 2 zero_xfer;
                 num_xfers = 1;
                 cmd = (command flash)[0 := opcode];
                 xfers = xfers[0 := (xfers ! 0)\<lparr>xfer_len := 1, tx_buf := Command 0,
                                                tx_nbits := code_nbits\<rparr>];
                 (cmd', xfers, num_xfers, ovr) =
                   (case buf of
                      None \<Rightarrow> (cmd, xfers, num_xfers, False)
                    | Some b \<Rightarrow>
                        let cmd' = store_bytes cmd 1 (take (unat len) b);
                            ovr = (\<not> fits b 0 (unat len) \<or> \<not> fits cmd 1 (unat len))
                        in if data_nbits = code_nbits then
                             (cmd', xfers[0 := (xfers ! 0)\<lparr>xfer_len := xfer_len (xfers ! 0) + len\<rparr>],
                              num_xfers, ovr)
                           else
                             (cmd', xfers[1 := (xfers ! 1)\<lparr>xfer_len := len, tx_buf := Command 1,
                                                            tx_nbits := data_nbits\<rparr>],
                              num_xfers + 1, ovr));
                 r = spi (take num_xfers xfers) cmd' []
             in \<lparr>wr_ret = status r, wr_flash = \<lparr>command = cmd'\<rparr>,
                 wr_calls = [take num_xfers xfers], wr_overrun = ovr\<rparr>))"

subsection \<open>Bulk write\<close>

record 'r write_result =
  w_retlen :: 'r
  w_flash :: m25p
  w_calls :: "spi_transfer list list"

text \<open>
  \<open>m25p80_write\<close> returns nothing; its visible effect is \<open>*retlen\<close>.
  \<open>SPINOR_OP_AAI_WP\<close> is declared in linux/mtd/spi-nor.h, which is not among the
  sources, and is the parameter \<open>aai_wp\<close>.  \<open>spi_sync\<close>'s status is dropped;
  \<open>m.actual_length - cmd_sz\<close> is computed in \<open>unsigned\<close> and then added to the
  \<open>size_t\<close>.
\<close>

definition m25p80_write ::
  "(u32 \<Rightarrow> int \<Rightarrow> u32) \<Rightarrow> u8 \<Rightarrow> transport \<Rightarrow> spi_nor \<Rightarrow> m25p \<Rightarrow> loff_t \<Rightarrow> 's::len word
     \<Rightarrow> 's word \<Rightarrow> u8 list \<Rightarrow> 's word write_result" where
  "m25p80_write oob aai_wp spi nor flash to len retlen buf =
     (let cmd_sz = m25p_cmdsz nor;
          cmd_sz = (if program_opcode nor = aai_wp \<and> sst_write_second nor then 1 else cmd_sz)
      in case m25p80_proto2nbits (write_proto nor) of (ret, code_nbits, addr_nbits, data_nbits) \<Rightarrow>
           if ret <s 0 then
             \<lparr>w_retlen = retlen, w_flash = flash, w_calls = []\<rparr>
           else
             let xfers = replicate 3 zero_xfer;
                 num_xfers = 1;
                 cmd = (command flash)[0 := program_opcode nor];
                 xfers = xfers[0 := (xfers ! 0)\<lparr>xfer_len := 1, tx_buf := Command 0,
                                                tx_nbits := code_nbits\<rparr>];
                 (cmd, xfers, num_xfers) =
                   (if 1 <s cmd_sz then
                      let cmd = m25p_addr2cmd oob nor (ucast to) cmd
                      in if addr_nbits = code_nbits then
                           (cmd, xfers[0 := (xfers ! 0)\<lparr>xfer_len := xfer_len (xfers ! 0)
                                                             + of_nat (addr_width nor)\<rparr>],
                            num_xfers)
                         else
                           (cmd, xfers[1 := (xfers ! 1)\<lparr>xfer_len := of_nat (addr_width nor),
                                                          tx_buf := Command 1,
                                                          tx_nbits := addr_nbits\<rparr>],
                            num_xfers + 1)
                    else (cmd, xfers, num_xfers));
                 xfers = xfers[num_xfers := (xfers ! num_xfers)\<lparr>xfer_len := ucast len,
                                                                  tx_buf := Caller,
                                                                  tx_nbits := data_nbits\<rparr>];
                 num_xfers = num_xfers + 1;
                 r = spi (take num_xfers xfers) cmd buf
             in \<lparr>w_retlen = retlen + ucast (actual_length r - cmd_sz),
                 w_flash = \<lparr>command = cmd\<rparr>, w_calls = [take num_xfers xfers]\<rparr>)"

subsection \<open>Bulk read\<close>

text \<open>Line 222: the dummy cycles converted to a number of bytes, in \<open>unsigned\<close>.\<close>

definition dummy_bytes :: "spi_nor \<Rightarrow> u32 \<Rightarrow> u32" where
  "dummy_bytes nor addr_nbits = (of_nat (read_dummy nor) * addr_nbits) div 8"

record 'r read_result =
  r_ret :: c_int
  r_retlen :: 'r
  r_buf :: "u8 list"
  r_flash :: m25p
  r_calls :: "spi_transfer list list"
  r_overrun :: bool

text \<open>
  \<open>m25p80_read\<close>.  \<open>buf\<close> is the caller's receive buffer.  \<open>spi_sync\<close>'s status
  is dropped and the function returns 0.
\<close>

definition m25p80_read ::
  "(u32 \<Rightarrow> int \<Rightarrow> u32) \<Rightarrow> transport \<Rightarrow> spi_nor \<Rightarrow> m25p \<Rightarrow> loff_t \<Rightarrow> 's::len word
     \<Rightarrow> 's word \<Rightarrow> u8 list \<Rightarrow> 's word read_result" where
  "m25p80_read oob spi nor flash from len retlen buf =
     (case m25p80_proto2nbits (read_proto nor) of (ret, code_nbits, addr_nbits, data_nbits) \<Rightarrow>
        if ret <s 0 then
          \<lparr>r_ret = ret, r_retlen = retlen, r_buf = buf, r_flash = flash, r_calls = [],
           r_overrun = False\<rparr>
        else
          let dummy = dummy_bytes nor addr_nbits;
              xfers = replicate 3 zero_xfer;
              num_xfers = 1;
              cmd = (command flash)[0 := read_opcode nor];
              xfers = xfers[0 := (xfers ! 0)\<lparr>xfer_len := 1, tx_buf := Command 0,
                                             tx_nbits := code_nbits\<rparr>];
              cmd = m25p_addr2cmd oob nor (ucast from) cmd;
              ovr = (\<not> fits cmd (1 + addr_width nor) (unat dummy));
              cmd = store_bytes cmd (1 + addr_width nor) (replicate (unat dummy) 0);
              (xfers, num_xfers) =
                (if addr_nbits = code_nbits then
                   (xfers[0 := (xfers ! 0)\<lparr>xfer_len := xfer_len (xfers ! 0)
                                                   + (of_nat (addr_width nor) + dummy)\<rparr>],
                    num_xfers)
                 else
                   (xfers[1 := (xfers ! 1)\<lparr>xfer_len := of_nat (addr_width nor) + dummy,
                                             tx_buf := Command 1, tx_nbits := addr_nbits\<rparr>],
                    num_xfers + 1));
              xfers = xfers[num_xfers := (xfers ! num_xfers)\<lparr>xfer_len := ucast len,
                                                               rx_buf := Caller,
                                                               rx_nbits := data_nbits\<rparr>];
              num_xfers = num_xfers + 1;
              r = spi (take num_xfers xfers) cmd [];
              rx = take (unat (ucast len :: u32)) (rx_data r)
          in \<lparr>r_ret = 0,
              r_retlen = ucast (actual_length r - m25p_cmdsz nor - dummy),
              r_buf = store_bytes buf 0 rx, r_flash = \<lparr>command = cmd\<rparr>,
              r_calls = [take num_xfers xfers],
              r_overrun = (ovr \<or> \<not> fits buf 0 (length rx))\<rparr>)"

subsection \<open>Erase\<close>

record erase_result =
  e_ret :: c_int
  e_flash :: m25p
  e_calls :: "spi_transfer list list"

text \<open>
  Modelled from the spec: \<open>spi_write\<close> (linux/spi/spi.h, not among the sources)
  hands the transport a single send phase: the buffer and its length.
\<close>

definition spi_write :: "transport \<Rightarrow> u8 list \<Rightarrow> bufref \<Rightarrow> u32 \<Rightarrow> bus_result \<times> spi_transfer list" where
  "spi_write spi cmd b n =
     (let t = [zero_xfer\<lparr>tx_buf := b, xfer_len := n\<rparr>] in (spi t cmd [], t))"

text \<open>
  \<open>m25p80_erase\<close>.  \<open>dev_dbg\<close> only logs; \<open>spi_write\<close>'s status is dropped and
  the function returns 0.
\<close>

definition m25p80_erase ::
  "(u32 \<Rightarrow> int \<Rightarrow> u32) \<Rightarrow> transport \<Rightarrow> spi_nor \<Rightarrow> m25p \<Rightarrow> loff_t \<Rightarrow> erase_result" where
  "m25p80_erase oob spi nor flash offset =
     (let cmd = (command flash)[0 := erase_opcode nor];
          cmd = m25p_addr2cmd oob nor (ucast offset) cmd;
          (r, t) = spi_write spi cmd (Command 0) (m25p_cmdsz nor)
      in \<lparr>e_ret = 0, e_flash = \<lparr>command = cmd\<rparr>, e_calls = [t]\<rparr>)"

section \<open>Reference notions and sample inputs\<close>

text \<open>
  The header size of a bulk write as the spec words it: one opcode byte plus the
  address bytes, or the opcode alone for the second half of the two-step program
  command.
\<close>

definition write_header_size :: "u8 \<Rightarrow> spi_nor \<Rightarrow> nat" where
  "write_header_size aai_wp nor =
     (if program_opcode nor = aai_wp \<and> sst_write_second nor then 1 else 1 + addr_width nor)"

text \<open>
  The outcome of a register read that is refused: the invalid-argument status,
  the device state and the caller's buffer as they were, the transport never
  invoked.
\<close>

definition rejected :: "m25p \<Rightarrow> u8 list \<Rightarrow> read_reg_result" where
  "rejected flash val =
     \<lparr>rr_ret = - EINVAL, rr_flash = flash, rr_val = val, rr_calls = [], rr_overrun = False\<rparr>"

text \<open>Sample inputs: a single-lane part with 3 address bytes and 8 dummy cycles.\<close>

definition lanes :: "u32 \<Rightarrow> u32 \<Rightarrow> u32 \<Rightarrow> spi_nor_protocol" where
  "lanes c a d = \<lparr>SNOR_PROTO_CODE_FROM_PROTO = c, SNOR_PROTO_ADDR_FROM_PROTO = a,
                  SNOR_PROTO_DATA_FROM_PROTO = d\<rparr>"

definition example_nor :: spi_nor where
  "example_nor = \<lparr>addr_width = 3, erase_opcode = 0xd8, read_opcode = 0x0b, read_dummy = 8,
     program_opcode = 0x02, sst_write_second = False,
     read_proto = lanes 1 1 1, write_proto = lanes 1 1 1, reg_proto = lanes 1 1 1\<rparr>"

definition example_flash :: m25p where
  "example_flash = \<lparr>command = replicate 16 0xff\<rparr>"

text \<open>A shifter that yields 0 for an out-of-range count.\<close>

definition shift_zero :: "u32 \<Rightarrow> int \<Rightarrow> u32" where
  "shift_zero x n = 0"

text \<open>A transport that reports the same status, length and received bytes every time.\<close>

definition bus_reports :: "c_int \<Rightarrow> u32 \<Rightarrow> u8 list \<Rightarrow> transport" where
  "bus_reports st n bytes phases cmd buf = \<lparr>status = st, actual_length = n, rx_data = bytes\<rparr>"

text \<open>
  A shifter that masks the count to five bits, as some processors do, so that an
  out-of-range count still yields bits of the operand.
\<close>

definition shift_masked :: "u32 \<Rightarrow> int \<Rightarrow> u32" where
  "shift_masked x n = drop_bit (nat (n mod 32)) x"

text \<open>
  A transport that succeeds, reports the total length of the phases it was given
  as the bytes it moved, and returns the command bytes it was handed as the
  received data, so that a caller can see what went out.
\<close>

definition bus_spy :: transport where
  "bus_spy phases cmd buf =
     \<lparr>status = 0, actual_length = sum_list (map xfer_len phases), rx_data = cmd\<rparr>"

section \<open>Auxiliary facts\<close>

subsection \<open>Lists and stores\<close>

lemma replicate_2: "replicate 2 x = [x, x]"
  by (simp add: numeral_2_eq_2)

lemma replicate_3: "replicate 3 x = [x, x, x]"
  by (simp add: numeral_3_eq_3)

lemma length_store_bytes [simp]: "length (store_bytes buf off bs) = length buf"
  by (simp add: store_bytes_def)

lemma store_bytes_nth_in:
  "off + i < length buf \<Longrightarrow> i < length bs \<Longrightarrow> store_bytes buf off bs ! (off + i) = bs ! i"
  by (auto simp: store_bytes_def nth_append)

lemma store_bytes_take:
  "off \<le> length buf \<Longrightarrow> take off (store_bytes buf off bs) = take off buf"
  by (simp add: store_bytes_def)

lemma store_bytes_at_1:
  assumes "1 + length bs \<le> length buf"
  shows "store_bytes (buf[0 := x]) 1 bs = x # bs @ drop (1 + length bs) buf"
proof (cases buf)
  case Nil
  with assms show ?thesis by simp
next
  case (Cons a rest)
  with assms show ?thesis by (simp add: store_bytes_def)
qed

lemma take3:
  "5 \<le> length cmd \<Longrightarrow> take 3 (drop 1 (cmd[1 := a, 2 := b, 3 := c, 4 := d])) = [a, b, c]"
  apply (cases cmd; simp)
  subgoal for x1 c1 apply (cases c1; simp)
  subgoal for x2 c2 apply (cases c2; simp)
  subgoal for x3 c3 apply (cases c3; simp)
  done done done done

lemma take4:
  "5 \<le> length cmd \<Longrightarrow> take 4 (drop 1 (cmd[1 := a, 2 := b, 3 := c, 4 := d])) = [a, b, c, d]"
  apply (cases cmd; simp)
  subgoal for x1 c1 apply (cases c1; simp)
  subgoal for x2 c2 apply (cases c2; simp)
  subgoal for x3 c3 apply (cases c3; simp)
  subgoal for x4 c4 apply (cases c4; simp)
  done done done done done

lemma take4_header:
  "5 \<le> length cmd \<Longrightarrow> take 4 (cmd[0 := x, 1 := a, 2 := b, 3 := c, 4 := d]) = [x, a, b, c]"
  apply (cases cmd; simp)
  subgoal for x1 c1 apply (cases c1; simp)
  subgoal for x2 c2 apply (cases c2; simp)
  subgoal for x3 c3 apply (cases c3; simp)
  done done done done

lemma upd4_nth:
  "5 \<le> length cmd \<Longrightarrow>
   cmd[1 := a, 2 := b, 3 := c, 4 := d] ! 0 = cmd ! 0 \<and>
   cmd[1 := a, 2 := b, 3 := c, 4 := d] ! 1 = a \<and>
   cmd[1 := a, 2 := b, 3 := c, 4 := d] ! 2 = b \<and>
   cmd[1 := a, 2 := b, 3 := c, 4 := d] ! 3 = c \<and>
   cmd[1 := a, 2 := b, 3 := c, 4 := d] ! 4 = d"
  by simp

lemma upd4_nth_Suc:
  "5 \<le> length cmd \<Longrightarrow>
   cmd[1 := a, 2 := b, 3 := c, 4 := d] ! Suc 0 = a \<and>
   cmd[1 := a, 2 := b, 3 := c, 4 := d] ! Suc (Suc 0) = b \<and>
   cmd[1 := a, 2 := b, 3 := c, 4 := d] ! Suc (Suc (Suc 0)) = c \<and>
   cmd[1 := a, 2 := b, 3 := c, 4 := d] ! Suc (Suc (Suc (Suc 0))) = d"
  using upd4_nth [of cmd a b c d] by (simp add: eval_nat_numeral)

lemma less3: "i < (3::nat) \<longleftrightarrow> i = 0 \<or> i = Suc 0 \<or> i = Suc (Suc 0)"
  by auto

lemma less4: "i < (4::nat) \<longleftrightarrow> i = 0 \<or> i = Suc 0 \<or> i = Suc (Suc 0) \<or> i = Suc (Suc (Suc 0))"
  by auto

subsection \<open>Bytes of a word\<close>

lemma byte_of: "unat (ucast (drop_bit n (x :: u32)) :: u8) = unat x div 2 ^ n mod 256"
proof -
  have "unat (ucast (drop_bit n x) :: u8) = take_bit 8 (unat (drop_bit n x))"
    by (simp add: unsigned_ucast_eq)
  also have "\<dots> = unat x div 2 ^ n mod 256"
    by (simp only: unat_drop_bit_eq) (simp add: drop_bit_eq_div take_bit_eq_mod)
  finally show ?thesis .
qed

lemma split3:
  "(a::nat) div 65536 mod 256 * 65536 + a div 256 mod 256 * 256 + a mod 256 = a mod 16777216"
proof -
  have 1: "a mod 65536 = a div 256 mod 256 * 256 + a mod 256"
    using mod_mult2_eq [of a 256 256] by simp
  have 2: "a mod 16777216 = a div 65536 mod 256 * 65536 + a mod 65536"
    using mod_mult2_eq [of a 65536 256] by simp
  show ?thesis using 1 2 by simp
qed

lemma split4:
  "(a::nat) div 16777216 mod 256 * 16777216 + a div 65536 mod 256 * 65536
     + a div 256 mod 256 * 256 + a mod 256 = a mod 4294967296"
proof -
  have 3: "a mod 4294967296 = a div 16777216 mod 256 * 16777216 + a mod 16777216"
    using mod_mult2_eq [of a 16777216 256] by simp
  show ?thesis using 3 split3 [of a] by simp
qed

lemma be3: "be_decode [a, b, c] = unat a * 65536 + unat b * 256 + unat c"
  by (simp add: be_decode_def)

lemma be4:
  "be_decode [a, b, c, d] = unat a * 16777216 + unat b * 65536 + unat c * 256 + unat d"
  by (simp add: be_decode_def)

lemma low_bits:
  assumes "w = 3 \<or> w = (4::nat)"
  shows "unat (ucast (x :: loff_t) :: u32) mod 2 ^ (w * 8) = unat x mod 2 ^ (w * 8)"
proof -
  have u: "unat (ucast x :: u32) = unat x mod 2 ^ 32"
    by (simp add: unsigned_ucast_eq take_bit_eq_mod)
  have "(2::nat) ^ (w * 8) dvd 2 ^ 32"
    using assms by (intro le_imp_power_dvd) auto
  then show ?thesis unfolding u by (rule mod_mod_cancel)
qed

subsection \<open>Signed comparisons of the capacity check\<close>

lemma sint_succ:
  assumes "sint (len :: c_int) \<noteq> 2147483647"
  shows "sint (len + 1) = sint len + 1"
proof -
  have "- (2 ^ 31) \<le> sint len" "sint len < 2 ^ 31"
    using sint_ge [of len] sint_lt [of len] by simp_all
  with assms have "- (2 ^ 31) \<le> sint len + 1" "sint len + 1 < 2 ^ 31" by simp_all
  then have "signed_take_bit 31 (sint len + 1) = sint len + 1"
    by (rule signed_take_bit_int_eq_self)
  then show ?thesis by (simp add: sint_word_add)
qed

lemma capacity_check:
  assumes "sint (len :: c_int) \<noteq> 2147483647"
  shows "(of_nat MAX_CMD_SIZE :: c_int) <s len + 1 \<longleftrightarrow> int MAX_CMD_SIZE < sint len + 1"
  using sint_succ [OF assms] by (simp add: word_sless_alt MAX_CMD_SIZE_def)

lemma sint_small:
  assumes "unat (len :: c_int) \<le> 15"
  shows "sint len = int (unat len)"
proof -
  have u: "uint len = int (unat len)" by (rule uint_nat)
  have b: "uint len \<le> 15" using assms unfolding u by linarith
  have nn: "0 \<le> uint len" by (rule unsigned_greater_eq)
  have "- (2 ^ 31) \<le> (0 :: int)" by simp
  then have lo: "- (2 ^ 31) \<le> uint len" using nn by (rule order_trans)
  have "(15 :: int) < 2 ^ 31" by simp
  with b have hi: "uint len < 2 ^ 31" by (rule le_less_trans)
  from lo hi have "signed_take_bit 31 (uint len) = uint len"
    by (rule signed_take_bit_int_eq_self)
  then have "sint len = uint len" by (simp add: sint_uint)
  then show ?thesis unfolding u .
qed

lemma capacity_ok:
  assumes "unat (len :: c_int) \<le> 15"
  shows "\<not> (of_nat MAX_CMD_SIZE :: c_int) <s len + 1"
proof -
  have s: "sint len = int (unat len)" using assms by (rule sint_small)
  have b: "int (unat len) \<le> 15" using assms by linarith
  then have "sint len \<noteq> 2147483647" unfolding s by simp
  then have "(of_nat MAX_CMD_SIZE :: c_int) <s len + 1 \<longleftrightarrow> int MAX_CMD_SIZE < sint len + 1"
    by (rule capacity_check)
  then show ?thesis using b unfolding s by (simp add: MAX_CMD_SIZE_def)
qed

section \<open>Address encoder\<close>

lemma length_addr2cmd [simp]: "length (m25p_addr2cmd oob nor addr cmd) = length cmd"
  by (simp add: m25p_addr2cmd_def)

lemma addr2cmd_nth0:
  "0 < length cmd \<Longrightarrow> m25p_addr2cmd oob nor addr (cmd[0 := x]) ! 0 = x"
  by (simp add: m25p_addr2cmd_def)

lemma addr2cmd_keeps_opcode:
  "5 \<le> length cmd \<Longrightarrow> m25p_addr2cmd oob nor addr cmd ! 0 = cmd ! 0"
  by (simp add: m25p_addr2cmd_def)

lemma addr2cmd_bytes:
  assumes w: "addr_width nor = 3 \<or> addr_width nor = 4"
      and l5: "5 \<le> length cmd"
  shows "\<forall>i < addr_width nor.
           m25p_addr2cmd oob nor addr cmd ! (1 + i)
             = ucast (drop_bit (8 * (addr_width nor - 1 - i)) addr)"
  using w
proof
  assume a: "addr_width nor = 3"
  show ?thesis
    using upd4_nth_Suc [OF l5] by (simp add: m25p_addr2cmd_def c_shr_def a less3)
next
  assume a: "addr_width nor = 4"
  show ?thesis
    using upd4_nth_Suc [OF l5] by (simp add: m25p_addr2cmd_def c_shr_def a less4)
qed

lemma addr2cmd_decode:
  assumes w: "addr_width nor = 3 \<or> addr_width nor = 4"
      and l5: "5 \<le> length cmd"
  shows "be_decode (take (addr_width nor) (drop 1 (m25p_addr2cmd oob nor addr cmd)))
           = unat addr mod 2 ^ (addr_width nor * 8)"
  using w
proof
  assume a: "addr_width nor = 3"
  have r: "m25p_addr2cmd oob nor addr cmd
             = cmd[1 := ucast (drop_bit 16 addr), 2 := ucast (drop_bit 8 addr),
                   3 := ucast (drop_bit 0 addr), 4 := ucast (oob addr (- 8))]"
    by (simp add: m25p_addr2cmd_def c_shr_def a)
  have "be_decode (take 3 (drop 1 (m25p_addr2cmd oob nor addr cmd))) = unat addr mod 2 ^ 24"
    unfolding r take3 [OF l5] be3 byte_of using split3 [of "unat addr"] by simp
  then show ?thesis by (simp add: a)
next
  assume a: "addr_width nor = 4"
  have r: "m25p_addr2cmd oob nor addr cmd
             = cmd[1 := ucast (drop_bit 24 addr), 2 := ucast (drop_bit 16 addr),
                   3 := ucast (drop_bit 8 addr), 4 := ucast (drop_bit 0 addr)]"
    by (simp add: m25p_addr2cmd_def c_shr_def a)
  have "be_decode (take 4 (drop 1 (m25p_addr2cmd oob nor addr cmd))) = unat addr mod 2 ^ 32"
    unfolding r take4 [OF l5] be4 byte_of using split4 [of "unat addr"] by simp
  then show ?thesis by (simp add: a)
qed

text \<open>
  Claim C2.  For every 32-bit address and an address width \<open>w\<close> of 3 or 4, the
  encoder stores \<open>w\<close> bytes from byte 1 of the command buffer, most significant
  byte first (byte \<open>1 + i\<close> holds bits \<open>8 * (w - 1 - i)\<close> and up, truncated to a
  byte); read back as a big-endian number they give the address modulo
  \<open>2 ^ (8 * w)\<close>.  The same holds for a 64-bit offset, which the callers
  convert to \<open>unsigned int\<close> on the way in.  The opcode in byte 0 and the size
  of the buffer are kept.
\<close>

theorem m25p_addr2cmd_big_endian:
  assumes w: "addr_width nor = 3 \<or> addr_width nor = 4"
      and len: "length cmd = MAX_CMD_SIZE"
  shows "(\<forall>i < addr_width nor.
            m25p_addr2cmd oob nor addr cmd ! (1 + i)
              = ucast (drop_bit (8 * (addr_width nor - 1 - i)) addr))
       \<and> be_decode (take (addr_width nor) (drop 1 (m25p_addr2cmd oob nor addr cmd)))
              = unat addr mod 2 ^ (addr_width nor * 8)
       \<and> be_decode (take (addr_width nor)
              (drop 1 (m25p_addr2cmd oob nor (ucast (offset :: loff_t)) cmd)))
              = unat offset mod 2 ^ (addr_width nor * 8)
       \<and> m25p_addr2cmd oob nor addr cmd ! 0 = cmd ! 0
       \<and> length (m25p_addr2cmd oob nor addr cmd) = length cmd"
proof -
  have l5: "5 \<le> length cmd" using len by (simp add: MAX_CMD_SIZE_def)
  have wide: "be_decode (take (addr_width nor)
              (drop 1 (m25p_addr2cmd oob nor (ucast offset) cmd)))
              = unat offset mod 2 ^ (addr_width nor * 8)"
    unfolding addr2cmd_decode [OF w l5] using w by (rule low_bits)
  show ?thesis
    using addr2cmd_bytes [OF w l5] addr2cmd_decode [OF w l5] addr2cmd_keeps_opcode [OF l5] wide
    by simp
qed

theorem m25p_addr2cmd_big_endian_witness:
  "(addr_width example_nor = 3 \<or> addr_width example_nor = 4)
   \<and> length (command example_flash) = MAX_CMD_SIZE
   \<and> be_decode (take 3 (drop 1
        (m25p_addr2cmd shift_zero example_nor 0x12345678 (command example_flash)))) = 0x345678
   \<and> m25p_addr2cmd shift_zero example_nor 0x12345678 (command example_flash) ! 0 = 0xff"
proof -
  have w: "addr_width example_nor = 3 \<or> addr_width example_nor = 4"
    by (simp add: example_nor_def)
  have l: "length (command example_flash) = MAX_CMD_SIZE"
    by (simp add: example_flash_def MAX_CMD_SIZE_def)
  have a: "addr_width example_nor = 3" by (simp add: example_nor_def)
  have c: "command example_flash ! 0 = 0xff" by (simp add: example_flash_def)
  show ?thesis
    using w l m25p_addr2cmd_big_endian [OF w l, of shift_zero "0x12345678"]
    by (simp add: a c)
qed

section \<open>Bulk read\<close>

lemma m25p80_read_phases:
  fixes len :: "'s::len word"
  shows "r_calls (m25p80_read oob spi nor flash from len retlen buf) =
     [if SNOR_PROTO_ADDR_FROM_PROTO (read_proto nor) = SNOR_PROTO_CODE_FROM_PROTO (read_proto nor)
      then [\<lparr>xfer_len = 1 + (of_nat (addr_width nor)
                               + dummy_bytes nor (SNOR_PROTO_ADDR_FROM_PROTO (read_proto nor))),
              tx_buf = Command 0, rx_buf = NULL,
              tx_nbits = SNOR_PROTO_CODE_FROM_PROTO (read_proto nor), rx_nbits = 0\<rparr>,
            \<lparr>xfer_len = ucast len, tx_buf = NULL, rx_buf = Caller, tx_nbits = 0,
              rx_nbits = SNOR_PROTO_DATA_FROM_PROTO (read_proto nor)\<rparr>]
      else [\<lparr>xfer_len = 1, tx_buf = Command 0, rx_buf = NULL,
              tx_nbits = SNOR_PROTO_CODE_FROM_PROTO (read_proto nor), rx_nbits = 0\<rparr>,
            \<lparr>xfer_len = of_nat (addr_width nor)
                          + dummy_bytes nor (SNOR_PROTO_ADDR_FROM_PROTO (read_proto nor)),
              tx_buf = Command 1, rx_buf = NULL,
              tx_nbits = SNOR_PROTO_ADDR_FROM_PROTO (read_proto nor), rx_nbits = 0\<rparr>,
            \<lparr>xfer_len = ucast len, tx_buf = NULL, rx_buf = Caller, tx_nbits = 0,
              rx_nbits = SNOR_PROTO_DATA_FROM_PROTO (read_proto nor)\<rparr>]]"
  by (simp add: m25p80_read_def m25p80_proto2nbits_def Let_def zero_xfer_def replicate_3)

lemma m25p80_read_command:
  fixes len :: "'s::len word"
  shows "command (r_flash (m25p80_read oob spi nor flash from len retlen buf)) =
     store_bytes (m25p_addr2cmd oob nor (ucast from) ((command flash)[0 := read_opcode nor]))
       (1 + addr_width nor)
       (replicate (unat (dummy_bytes nor (SNOR_PROTO_ADDR_FROM_PROTO (read_proto nor)))) 0)"
  by (simp add: m25p80_read_def m25p80_proto2nbits_def Let_def split: prod.splits)

lemma m25p80_read_retlen:
  fixes len :: "'s::len word"
  assumes "\<forall>p c b. actual_length (spi p c b) = n"
  shows "r_retlen (m25p80_read oob spi nor flash from len retlen buf)
           = ucast (n - m25p_cmdsz nor
                      - dummy_bytes nor (SNOR_PROTO_ADDR_FROM_PROTO (read_proto nor)))"
  using assms by (simp add: m25p80_read_def m25p80_proto2nbits_def Let_def split: prod.splits)

lemma m25p80_read_ret:
  fixes len :: "'s::len word"
  shows "r_ret (m25p80_read oob spi nor flash from len retlen buf) = 0"
  by (simp add: m25p80_read_def m25p80_proto2nbits_def Let_def split: prod.splits)

lemma dummy_bytes_unat:
  assumes "read_dummy nor * unat A < 2 ^ 32"
  shows "unat (dummy_bytes nor A) = read_dummy nor * unat A div 8"
proof (cases "unat A = 0")
  case True
  then have "A = 0" by (simp add: unat_eq_0)
  then show ?thesis by (simp add: dummy_bytes_def)
next
  case False
  then have "read_dummy nor * 1 \<le> read_dummy nor * unat A"
    by (intro mult_le_mono2) simp
  with assms have rd: "read_dummy nor < 2 ^ 32" by linarith
  have "unat (of_nat (read_dummy nor) * A :: u32) = read_dummy nor * unat A"
    using assms rd by (simp add: unat_word_ariths unat_of_nat)
  then show ?thesis by (simp add: dummy_bytes_def unat_div)
qed

lemma dummy_bytes_8:
  assumes "read_dummy nor = 8" "w = 1 \<or> w = 2 \<or> w = 4"
  shows "dummy_bytes nor w = w"
  using assms by (auto simp: dummy_bytes_def)

lemma m25p80_read_in_buffer_dummy_zero:
  fixes len :: "'s::len word"
  assumes "i < unat (dummy_bytes nor (SNOR_PROTO_ADDR_FROM_PROTO (read_proto nor)))"
      and "1 + addr_width nor + i < length (command flash)"
  shows "command (r_flash (m25p80_read oob spi nor flash from len retlen buf))
           ! (1 + addr_width nor + i) = 0"
  unfolding m25p80_read_command using assms by (subst store_bytes_nth_in) simp_all

lemma m25p80_read_transport_sees_command:
  fixes len :: "'s::len word"
  shows "r_buf (m25p80_read oob bus_spy nor flash from len retlen buf)
           = store_bytes buf 0
               (take (unat (ucast len :: u32))
                  (command (r_flash (m25p80_read oob bus_spy nor flash from len retlen buf))))"
  by (simp add: m25p80_read_def m25p80_proto2nbits_def Let_def bus_spy_def split: prod.splits)

lemma m25p80_read_overrun:
  fixes len :: "'s::len word"
  assumes "MAX_CMD_SIZE < 1 + addr_width nor
             + unat (dummy_bytes nor (SNOR_PROTO_ADDR_FROM_PROTO (read_proto nor)))"
      and "length (command flash) = MAX_CMD_SIZE"
  shows "r_overrun (m25p80_read oob spi nor flash from len retlen buf)"
  using assms
  by (simp add: m25p80_read_def m25p80_proto2nbits_def Let_def fits_def split: prod.splits)

text \<open>
  Claim C1, evaluated at an input the bulk read does not guard against: 128
  dummy cycles on a single lane with 3 address bytes.  The byte count follows the
  formula, \<open>128 * 1 div 8 = 16\<close>, and the header phase is announced with
  \<open>1 + 3 + 16 = 20\<close> bytes, but the command buffer holds 16.  The transport
  sees bytes 4 to 15 zeroed (before the fill byte 4 held 0xab and the others
  0xff); the last four stores of \<open>memset\<close> fall past the end of the array, so
  not every dummy byte lies in the staged command buffer.
\<close>

theorem m25p80_read_dummy_overrun:
  "read_dummy (example_nor\<lparr>read_dummy := 128\<rparr>)
     * unat (SNOR_PROTO_ADDR_FROM_PROTO (read_proto (example_nor\<lparr>read_dummy := 128\<rparr>))) div 8 = 16
   \<and> unat (dummy_bytes (example_nor\<lparr>read_dummy := 128\<rparr>) 1) = 16
   \<and> length (command example_flash) = 16
   \<and> MAX_CMD_SIZE < 1 + addr_width (example_nor\<lparr>read_dummy := 128\<rparr>) + 16
   \<and> m25p_addr2cmd shift_masked (example_nor\<lparr>read_dummy := 128\<rparr>) 0xAB001000
        ((command example_flash)[0 := 0x0b])
      = [0x0b, 0x00, 0x10, 0x00, 0xab, 0xff, 0xff, 0xff, 0xff, 0xff, 0xff, 0xff, 0xff, 0xff,
         0xff, 0xff]
   \<and> r_buf (m25p80_read shift_masked bus_spy (example_nor\<lparr>read_dummy := 128\<rparr>) example_flash
        0xAB001000 (16 :: 64 word) 0 (replicate 16 0xaa))
      = [0x0b, 0x00, 0x10, 0x00, 0, 0, 0, 0, 0, 0, 0, 0, 0, 0, 0, 0]
   \<and> map xfer_len (hd (r_calls (m25p80_read shift_masked bus_spy
        (example_nor\<lparr>read_dummy := 128\<rparr>) example_flash 0xAB001000 (16 :: 64 word) 0
        (replicate 16 0xaa)))) = [20, 16]
   \<and> \<not> fits (command (r_flash (m25p80_read shift_masked bus_spy
        (example_nor\<lparr>read_dummy := 128\<rparr>) example_flash 0xAB001000 (16 :: 64 word) 0
        (replicate 16 0xaa)))) (1 + 3) 16
   \<and> r_overrun (m25p80_read shift_masked bus_spy (example_nor\<lparr>read_dummy := 128\<rparr>)
        example_flash 0xAB001000 (16 :: 64 word) 0 (replicate 16 0xaa))"
  by code_simp

text \<open>
  Claim C5.  Every bulk read hands the transport one transaction.  It has exactly
  2 phases when the address lane width equals the opcode lane width (opcode,
  address and dummy bytes in the first phase, then the data phase) and exactly 3
  otherwise (opcode, address with dummy bytes, data).  Only the last phase
  receives.
\<close>

theorem m25p80_read_phase_count:
  fixes len :: "'s::len word"
  shows "\<exists>phases. r_calls (m25p80_read oob spi nor flash from len retlen buf) = [phases]
     \<and> length phases =
         (if SNOR_PROTO_ADDR_FROM_PROTO (read_proto nor) = SNOR_PROTO_CODE_FROM_PROTO (read_proto nor)
          then 2 else 3)
     \<and> map xfer_len phases =
         (if SNOR_PROTO_ADDR_FROM_PROTO (read_proto nor) = SNOR_PROTO_CODE_FROM_PROTO (read_proto nor)
          then [1 + (of_nat (addr_width nor)
                     + dummy_bytes nor (SNOR_PROTO_ADDR_FROM_PROTO (read_proto nor))),
                ucast len]
          else [1,
                of_nat (addr_width nor)
                  + dummy_bytes nor (SNOR_PROTO_ADDR_FROM_PROTO (read_proto nor)),
                ucast len])
     \<and> rx_buf (last phases) = Caller \<and> list_all (\<lambda>p. rx_buf p = NULL) (butlast phases)"
  unfolding m25p80_read_phases by simp

text \<open>
  Claim C6, as stated: offset 0x001000, length 256, 3 address bytes, 8 dummy
  cycles, the transport reporting 260 bytes.  On a single lane (all three widths
  1) the header phase is 5 bytes long, not 4, since it carries the dummy byte,
  and \<open>retlen\<close> is 255, not 256.  With lanes 1-2-2 (address width equal to data
  width) the transaction has three phases and \<open>retlen\<close> is 254.
\<close>

theorem m25p80_read_scenario_counterexample:
  "r_calls (m25p80_read shift_zero (bus_reports 0 260 []) example_nor example_flash 0x1000
              (256 :: 64 word) 0 [])
     = [[\<lparr>xfer_len = 5, tx_buf = Command 0, rx_buf = NULL, tx_nbits = 1, rx_nbits = 0\<rparr>,
         \<lparr>xfer_len = 256, tx_buf = NULL, rx_buf = Caller, tx_nbits = 0, rx_nbits = 1\<rparr>]]
   \<and> r_retlen (m25p80_read shift_zero (bus_reports 0 260 []) example_nor example_flash 0x1000
              (256 :: 64 word) 0 []) = 255
   \<and> r_retlen (m25p80_read shift_zero (bus_reports 0 260 []) example_nor example_flash 0x1000
              (256 :: 64 word) 0 []) \<noteq> 256
   \<and> map xfer_len (hd (r_calls (m25p80_read shift_zero (bus_reports 0 260 [])
        (example_nor\<lparr>read_proto := lanes 1 2 2\<rparr>) example_flash 0x1000 (256 :: 64 word) 0 [])))
     = [1, 5, 256]
   \<and> r_retlen (m25p80_read shift_zero (bus_reports 0 260 [])
        (example_nor\<lparr>read_proto := lanes 1 2 2\<rparr>) example_flash 0x1000 (256 :: 64 word) 0 [])
     = 254"
  by code_simp

lemma m25p80_read_header_bytes:
  fixes len :: "'s::len word"
  assumes aw: "addr_width nor = 3" and l: "length (command flash) = MAX_CMD_SIZE"
  shows "take 4 (command (r_flash (m25p80_read oob spi nor flash from len retlen buf)))
           = [read_opcode nor, ucast (drop_bit 16 (ucast from :: u32)),
              ucast (drop_bit 8 (ucast from :: u32)), ucast (ucast from :: u32)]"
proof -
  have l5: "5 \<le> length (command flash)" using l by (simp add: MAX_CMD_SIZE_def)
  have "take 4 (m25p_addr2cmd oob nor (ucast from) ((command flash)[0 := read_opcode nor]))
          = [read_opcode nor, ucast (drop_bit 16 (ucast from :: u32)),
              ucast (drop_bit 8 (ucast from :: u32)), ucast (ucast from :: u32)]"
    using take4_header [OF l5] by (simp add: m25p_addr2cmd_def c_shr_def aw)
  then show ?thesis
    unfolding m25p80_read_command using l5 by (simp add: aw store_bytes_take)
qed

text \<open>
  Claim C6, amended: in the same scenario, with a protocol whose address lane
  width equals its opcode lane width \<open>w\<close> (1, 2 or 4), the transaction is the
  merged send phase of length \<open>4 + w\<close> (opcode, the address bytes 00 10 00 and
  \<open>w\<close> dummy bytes) followed by the data phase of length 256, and a transport
  that reports 260 bytes gives \<open>retlen = 256 - w\<close>.
\<close>

theorem m25p80_read_scenario:
  fixes len :: "'s::len word"
  assumes aw: "addr_width nor = 3" and rd: "read_dummy nor = 8"
      and a: "SNOR_PROTO_ADDR_FROM_PROTO (read_proto nor) = w"
      and c: "SNOR_PROTO_CODE_FROM_PROTO (read_proto nor) = w"
      and w: "w = 1 \<or> w = 2 \<or> w = 4"
      and len: "unat len = 256"
      and bus: "\<forall>p c b. actual_length (spi p c b) = 260"
      and buf: "length (command flash) = MAX_CMD_SIZE"
  shows "r_calls (m25p80_read oob spi nor flash 0x1000 len retlen buf)
           = [[\<lparr>xfer_len = 4 + w, tx_buf = Command 0, rx_buf = NULL, tx_nbits = w, rx_nbits = 0\<rparr>,
               \<lparr>xfer_len = 256, tx_buf = NULL, rx_buf = Caller, tx_nbits = 0,
                 rx_nbits = SNOR_PROTO_DATA_FROM_PROTO (read_proto nor)\<rparr>]]
       \<and> take 4 (command (r_flash (m25p80_read oob spi nor flash 0x1000 len retlen buf)))
           = [read_opcode nor, 0x00, 0x10, 0x00]
       \<and> r_retlen (m25p80_read oob spi nor flash 0x1000 len retlen buf) = ucast (256 - w)
       \<and> r_ret (m25p80_read oob spi nor flash 0x1000 len retlen buf) = 0"
proof -
  have d: "dummy_bytes nor w = w" using rd w by (rule dummy_bytes_8)
  have l: "(ucast len :: u32) = 256"
    using of_nat_unat [of len, where 'a = "32 word"] len by simp
  have h: "take 4 (command (r_flash (m25p80_read oob spi nor flash 0x1000 len retlen buf)))
           = [read_opcode nor, 0x00, 0x10, 0x00]"
    unfolding m25p80_read_header_bytes [OF aw buf] by simp
  show ?thesis
    unfolding m25p80_read_phases m25p80_read_retlen [OF bus] m25p80_read_ret h
    by (simp add: a c d aw l m25p_cmdsz_def)
qed

theorem m25p80_read_scenario_witness:
  "addr_width example_nor = 3 \<and> read_dummy example_nor = 8
   \<and> SNOR_PROTO_ADDR_FROM_PROTO (read_proto example_nor) = 1
   \<and> SNOR_PROTO_CODE_FROM_PROTO (read_proto example_nor) = 1
   \<and> unat (256 :: 64 word) = 256
   \<and> (\<forall>p c b. actual_length (bus_reports 0 260 [] p c b) = 260)
   \<and> length (command example_flash) = MAX_CMD_SIZE
   \<and> map xfer_len (hd (r_calls (m25p80_read shift_zero (bus_reports 0 260 []) example_nor
        example_flash 0x1000 (256 :: 64 word) 0 []))) = [5, 256]
   \<and> r_retlen (m25p80_read shift_zero (bus_reports 0 260 []) example_nor example_flash 0x1000
        (256 :: 64 word) 0 []) = 255"
proof -
  have aw: "addr_width example_nor = 3" and rd: "read_dummy example_nor = 8"
    and a: "SNOR_PROTO_ADDR_FROM_PROTO (read_proto example_nor) = 1"
    and c: "SNOR_PROTO_CODE_FROM_PROTO (read_proto example_nor) = 1"
    by (simp_all add: example_nor_def lanes_def)
  have w: "(1 :: u32) = 1 \<or> (1 :: u32) = 2 \<or> (1 :: u32) = 4" by simp
  have len: "unat (256 :: 64 word) = 256" by simp
  have bus: "\<forall>p c b. actual_length (bus_reports 0 260 [] p c b) = 260"
    by (simp add: bus_reports_def)
  have buf: "length (command example_flash) = MAX_CMD_SIZE"
    by (simp add: example_flash_def MAX_CMD_SIZE_def)
  show ?thesis
    using aw rd a c len bus buf
      m25p80_read_scenario [OF aw rd a c w len bus buf, of shift_zero 0 "[]"]
    by simp
qed

section \<open>Bulk write\<close>

lemma m25p80_write_phases:
  fixes retlen :: "'s::len word"
  shows "w_calls (m25p80_write oob aai_wp spi nor flash to len retlen buf) =
     [if 1 <s (of_nat (write_header_size aai_wp nor) :: c_int) then
        (if SNOR_PROTO_ADDR_FROM_PROTO (write_proto nor) = SNOR_PROTO_CODE_FROM_PROTO (write_proto nor)
         then [\<lparr>xfer_len = 1 + of_nat (addr_width nor), tx_buf = Command 0, rx_buf = NULL,
                 tx_nbits = SNOR_PROTO_CODE_FROM_PROTO (write_proto nor), rx_nbits = 0\<rparr>,
               \<lparr>xfer_len = ucast len, tx_buf = Caller, rx_buf = NULL,
                 tx_nbits = SNOR_PROTO_DATA_FROM_PROTO (write_proto nor), rx_nbits = 0\<rparr>]
         else [\<lparr>xfer_len = 1, tx_buf = Command 0, rx_buf = NULL,
                 tx_nbits = SNOR_PROTO_CODE_FROM_PROTO (write_proto nor), rx_nbits = 0\<rparr>,
               \<lparr>xfer_len = of_nat (addr_width nor), tx_buf = Command 1, rx_buf = NULL,
                 tx_nbits = SNOR_PROTO_ADDR_FROM_PROTO (write_proto nor), rx_nbits = 0\<rparr>,
               \<lparr>xfer_len = ucast len, tx_buf = Caller, rx_buf = NULL,
                 tx_nbits = SNOR_PROTO_DATA_FROM_PROTO (write_proto nor), rx_nbits = 0\<rparr>])
      else [\<lparr>xfer_len = 1, tx_buf = Command 0, rx_buf = NULL,
              tx_nbits = SNOR_PROTO_CODE_FROM_PROTO (write_proto nor), rx_nbits = 0\<rparr>,
            \<lparr>xfer_len = ucast len, tx_buf = Caller, rx_buf = NULL,
              tx_nbits = SNOR_PROTO_DATA_FROM_PROTO (write_proto nor), rx_nbits = 0\<rparr>]]"
  by (simp add: m25p80_write_def m25p80_proto2nbits_def Let_def zero_xfer_def replicate_3
        m25p_cmdsz_def write_header_size_def)

lemma m25p80_write_retlen_call:
  fixes retlen :: "'s::len word"
  shows "w_retlen (m25p80_write oob aai_wp spi nor flash to len retlen buf)
           = retlen + ucast (actual_length
                (spi (hd (w_calls (m25p80_write oob aai_wp spi nor flash to len retlen buf)))
                     (command (w_flash (m25p80_write oob aai_wp spi nor flash to len retlen buf)))
                     buf)
              - of_nat (write_header_size aai_wp nor))"
  by (simp add: m25p80_write_def m25p80_proto2nbits_def Let_def m25p_cmdsz_def
        write_header_size_def split: prod.splits)

lemma widen_difference:
  assumes h: "h \<le> unat (n :: u32)"
  shows "(ucast (n - of_nat h) :: 's::len word) = of_nat (unat n - h)"
proof -
  have "unat n < 2 ^ 32" using unsigned_less [of n, where 'a = nat] by simp
  with h have "h < 2 ^ 32" by simp
  then have "unat (of_nat h :: u32) = h" by (simp add: unat_of_nat)
  with h have "unat (n - of_nat h) = unat n - h"
    by (simp add: unat_sub word_le_nat_alt)
  then show ?thesis using of_nat_unat [of "n - of_nat h", where 'a = "'s word"] by simp
qed

text \<open>
  Claim C8.  Every bulk write hands the transport one transaction, which ends
  with the data phase over the caller's buffer, and then adds to the caller's
  \<open>retlen\<close>; it does not overwrite it.  The increment is the \<open>actual_length\<close>
  that the transport reports for that very transaction minus the header size,
  computed in 32-bit unsigned arithmetic and widened to \<open>size_t\<close>; the header
  size is \<open>1 + addr_width\<close>, or 1 when the program opcode is the two-step AAI
  opcode and the second-phase flag is set.  When the transport moved at least the
  header, the increment is the plain difference.
\<close>

theorem m25p80_write_retlen_accumulates:
  fixes retlen :: "'s::len word"
  shows "\<exists>phases moved.
       w_calls (m25p80_write oob aai_wp spi nor flash to len retlen buf) = [phases]
     \<and> phases =
         (if 1 <s (of_nat (write_header_size aai_wp nor) :: c_int) then
            (if SNOR_PROTO_ADDR_FROM_PROTO (write_proto nor)
                  = SNOR_PROTO_CODE_FROM_PROTO (write_proto nor)
             then [\<lparr>xfer_len = 1 + of_nat (addr_width nor), tx_buf = Command 0, rx_buf = NULL,
                     tx_nbits = SNOR_PROTO_CODE_FROM_PROTO (write_proto nor), rx_nbits = 0\<rparr>,
                   \<lparr>xfer_len = ucast len, tx_buf = Caller, rx_buf = NULL,
                     tx_nbits = SNOR_PROTO_DATA_FROM_PROTO (write_proto nor), rx_nbits = 0\<rparr>]
             else [\<lparr>xfer_len = 1, tx_buf = Command 0, rx_buf = NULL,
                     tx_nbits = SNOR_PROTO_CODE_FROM_PROTO (write_proto nor), rx_nbits = 0\<rparr>,
                   \<lparr>xfer_len = of_nat (addr_width nor), tx_buf = Command 1, rx_buf = NULL,
                     tx_nbits = SNOR_PROTO_ADDR_FROM_PROTO (write_proto nor), rx_nbits = 0\<rparr>,
                   \<lparr>xfer_len = ucast len, tx_buf = Caller, rx_buf = NULL,
                     tx_nbits = SNOR_PROTO_DATA_FROM_PROTO (write_proto nor), rx_nbits = 0\<rparr>])
          else [\<lparr>xfer_len = 1, tx_buf = Command 0, rx_buf = NULL,
                  tx_nbits = SNOR_PROTO_CODE_FROM_PROTO (write_proto nor), rx_nbits = 0\<rparr>,
                \<lparr>xfer_len = ucast len, tx_buf = Caller, rx_buf = NULL,
                  tx_nbits = SNOR_PROTO_DATA_FROM_PROTO (write_proto nor), rx_nbits = 0\<rparr>])
     \<and> moved = actual_length
           (spi phases
              (command (w_flash (m25p80_write oob aai_wp spi nor flash to len retlen buf))) buf)
     \<and> w_retlen (m25p80_write oob aai_wp spi nor flash to len retlen buf)
         = retlen + ucast (moved - of_nat (write_header_size aai_wp nor))
     \<and> (write_header_size aai_wp nor \<le> unat moved \<longrightarrow>
          w_retlen (m25p80_write oob aai_wp spi nor flash to len retlen buf)
            = retlen + of_nat (unat moved - write_header_size aai_wp nor))"
proof -
  let ?R = "m25p80_write oob aai_wp spi nor flash to len retlen buf"
  let ?moved = "actual_length (spi (hd (w_calls ?R)) (command (w_flash ?R)) buf)"
  have r: "w_retlen ?R = retlen + ucast (?moved - of_nat (write_header_size aai_wp nor))"
    by (rule m25p80_write_retlen_call)
  have p: "w_retlen ?R = retlen + of_nat (unat ?moved - write_header_size aai_wp nor)"
    if "write_header_size aai_wp nor \<le> unat ?moved"
    unfolding r using that by (simp add: widen_difference)
  have c: "w_calls ?R = [hd (w_calls ?R)]"
    unfolding m25p80_write_phases by simp
  show ?thesis
    apply (rule exI [of _ "hd (w_calls ?R)"])
    apply (rule exI [of _ ?moved])
    apply (intro conjI)
        apply (rule c)
       apply (simp add: m25p80_write_phases)
      apply (rule refl)
     apply (rule r)
    using p apply blast
    done
qed

theorem m25p80_write_retlen_accumulates_witness:
  "w_calls (m25p80_write shift_zero 0xad bus_spy example_nor example_flash
        0x1000 (256 :: 64 word) 1000 (replicate 256 0x5a))
     = [[\<lparr>xfer_len = 4, tx_buf = Command 0, rx_buf = NULL, tx_nbits = 1, rx_nbits = 0\<rparr>,
         \<lparr>xfer_len = 256, tx_buf = Caller, rx_buf = NULL, tx_nbits = 1, rx_nbits = 0\<rparr>]]
   \<and> write_header_size 0xad example_nor = 4
   \<and> w_retlen (m25p80_write shift_zero 0xad bus_spy example_nor example_flash
        0x1000 (256 :: 64 word) 1000 (replicate 256 0x5a)) = 1256
   \<and> w_calls (m25p80_write shift_zero 0xad bus_spy
        (example_nor\<lparr>program_opcode := 0xad, sst_write_second := True\<rparr>) example_flash
        0x1000 (2 :: 64 word) 1000 [0x12, 0x34])
     = [[\<lparr>xfer_len = 1, tx_buf = Command 0, rx_buf = NULL, tx_nbits = 1, rx_nbits = 0\<rparr>,
         \<lparr>xfer_len = 2, tx_buf = Caller, rx_buf = NULL, tx_nbits = 1, rx_nbits = 0\<rparr>]]
   \<and> write_header_size 0xad (example_nor\<lparr>program_opcode := 0xad, sst_write_second := True\<rparr>)
        = 1
   \<and> w_retlen (m25p80_write shift_zero 0xad bus_spy
        (example_nor\<lparr>program_opcode := 0xad, sst_write_second := True\<rparr>) example_flash
        0x1000 (2 :: 64 word) 1000 [0x12, 0x34]) = 1002"
proof -
  have h1: "write_header_size 0xad example_nor = 4"
    and h2: "write_header_size 0xad
               (example_nor\<lparr>program_opcode := 0xad, sst_write_second := True\<rparr>) = 1"
    by (simp_all add: write_header_size_def example_nor_def)
  have c1: "w_calls (m25p80_write shift_zero 0xad bus_spy example_nor example_flash
        0x1000 (256 :: 64 word) 1000 (replicate 256 0x5a))
     = [[\<lparr>xfer_len = 4, tx_buf = Command 0, rx_buf = NULL, tx_nbits = 1, rx_nbits = 0\<rparr>,
         \<lparr>xfer_len = 256, tx_buf = Caller, rx_buf = NULL, tx_nbits = 1, rx_nbits = 0\<rparr>]]"
    by code_simp
  have c2: "w_calls (m25p80_write shift_zero 0xad bus_spy
        (example_nor\<lparr>program_opcode := 0xad, sst_write_second := True\<rparr>) example_flash
        0x1000 (2 :: 64 word) 1000 [0x12, 0x34])
     = [[\<lparr>xfer_len = 1, tx_buf = Command 0, rx_buf = NULL, tx_nbits = 1, rx_nbits = 0\<rparr>,
         \<lparr>xfer_len = 2, tx_buf = Caller, rx_buf = NULL, tx_nbits = 1, rx_nbits = 0\<rparr>]]"
    by code_simp
  show ?thesis
    using m25p80_write_retlen_accumulates [of shift_zero "0xad" bus_spy example_nor
        example_flash "0x1000" "256 :: 64 word" 1000 "replicate 256 0x5a"]
      m25p80_write_retlen_accumulates [of shift_zero "0xad" bus_spy
        "example_nor\<lparr>program_opcode := 0xad, sst_write_second := True\<rparr>" example_flash
        "0x1000" "2 :: 64 word" 1000 "[0x12, 0x34]"]
    unfolding c1 c2 h1 h2 by (auto simp: bus_spy_def)
qed

section \<open>Erase\<close>

lemma m25p80_erase_calls:
  "e_calls (m25p80_erase oob spi nor flash offset)
     = [[\<lparr>xfer_len = 1 + of_nat (addr_width nor), tx_buf = Command 0, rx_buf = NULL,
          tx_nbits = 0, rx_nbits = 0\<rparr>]]"
  by (simp add: m25p80_erase_def spi_write_def Let_def m25p_cmdsz_def zero_xfer_def)

lemma m25p80_erase_command:
  "command (e_flash (m25p80_erase oob spi nor flash offset))
     = m25p_addr2cmd oob nor (ucast offset) ((command flash)[0 := erase_opcode nor])"
  by (simp add: m25p80_erase_def spi_write_def Let_def)

text \<open>
  Claim C9.  Every erase hands the transport a single send phase that starts at
  byte 0 of the command buffer and is \<open>1 + addr_width\<close> bytes long: the opcode
  and the address, merged, and no data phase.  With 4 address bytes the phase is
  5 bytes long.  Byte 0 holds the erase opcode and, for 3 or 4 address bytes,
  the bytes after it decode big-endian to the offset modulo \<open>2 ^ (8 * addr_width)\<close>.
\<close>

theorem m25p80_erase_header_only:
  "(\<exists>hdr. e_calls (m25p80_erase oob spi nor flash offset) = [[hdr]]
        \<and> xfer_len hdr = 1 + of_nat (addr_width nor)
        \<and> tx_buf hdr = Command 0 \<and> rx_buf hdr = NULL)
   \<and> (addr_width nor = 4 \<longrightarrow>
         (\<exists>hdr. e_calls (m25p80_erase oob spi nor flash offset) = [[hdr]] \<and> xfer_len hdr = 5))
   \<and> (length (command flash) = MAX_CMD_SIZE \<longrightarrow>
         command (e_flash (m25p80_erase oob spi nor flash offset)) ! 0 = erase_opcode nor
         \<and> ((addr_width nor = 3 \<or> addr_width nor = 4) \<longrightarrow>
              be_decode (take (addr_width nor)
                  (drop 1 (command (e_flash (m25p80_erase oob spi nor flash offset)))))
                = unat offset mod 2 ^ (addr_width nor * 8)))"
proof -
  have dec: "be_decode (take (addr_width nor)
                  (drop 1 (command (e_flash (m25p80_erase oob spi nor flash offset)))))
                = unat offset mod 2 ^ (addr_width nor * 8)"
    if l: "length (command flash) = MAX_CMD_SIZE"
      and w: "addr_width nor = 3 \<or> addr_width nor = 4"
  proof -
    have "5 \<le> length ((command flash)[0 := erase_opcode nor])"
      using l by (simp add: MAX_CMD_SIZE_def)
    with w have "be_decode (take (addr_width nor)
                  (drop 1 (command (e_flash (m25p80_erase oob spi nor flash offset)))))
                = unat (ucast offset :: u32) mod 2 ^ (addr_width nor * 8)"
      unfolding m25p80_erase_command by (rule addr2cmd_decode)
    then show ?thesis using low_bits [OF w, of offset] by simp
  qed
  have op: "command (e_flash (m25p80_erase oob spi nor flash offset)) ! 0 = erase_opcode nor"
    if l: "length (command flash) = MAX_CMD_SIZE"
    unfolding m25p80_erase_command using l by (simp add: addr2cmd_nth0 MAX_CMD_SIZE_def)
  show ?thesis
    using dec op unfolding m25p80_erase_calls by auto
qed

theorem m25p80_erase_header_only_witness:
  "addr_width (example_nor\<lparr>addr_width := 4\<rparr>) = 4
   \<and> length (command example_flash) = MAX_CMD_SIZE
   \<and> e_calls (m25p80_erase shift_zero (bus_reports 0 5 []) (example_nor\<lparr>addr_width := 4\<rparr>)
        example_flash 0xFF00)
      = [[\<lparr>xfer_len = 5, tx_buf = Command 0, rx_buf = NULL, tx_nbits = 0, rx_nbits = 0\<rparr>]]
   \<and> command (e_flash (m25p80_erase shift_zero (bus_reports 0 5 [])
        (example_nor\<lparr>addr_width := 4\<rparr>) example_flash 0xFF00)) ! 0 = 0xd8
   \<and> be_decode (take 4 (drop 1 (command (e_flash (m25p80_erase shift_zero (bus_reports 0 5 [])
        (example_nor\<lparr>addr_width := 4\<rparr>) example_flash 0xFF00))))) = 0xFF00"
proof -
  have a: "addr_width (example_nor\<lparr>addr_width := 4\<rparr>) = 4" by simp
  have e: "erase_opcode (example_nor\<lparr>addr_width := 4\<rparr>) = 0xd8" by (simp add: example_nor_def)
  have l: "length (command example_flash) = MAX_CMD_SIZE"
    by (simp add: example_flash_def MAX_CMD_SIZE_def)
  show ?thesis
    using l m25p80_erase_header_only [of shift_zero "bus_reports 0 5 []"
          "example_nor\<lparr>addr_width := 4\<rparr>" example_flash "0xFF00"]
    unfolding a e by (auto simp: m25p80_erase_calls)
qed

section \<open>Register write\<close>

lemma write_reg_ret:
  "wr_calls (m25p80_write_reg spi nor flash opcode buf len) \<noteq> [] \<Longrightarrow>
     wr_ret (m25p80_write_reg spi nor flash opcode buf len)
       = status (spi (hd (wr_calls (m25p80_write_reg spi nor flash opcode buf len)))
                     (command (wr_flash (m25p80_write_reg spi nor flash opcode buf len))) [])"
  by (simp add: m25p80_write_reg_def m25p80_proto2nbits_def Let_def
        split: if_splits option.splits)

lemma write_reg_calls_le:
  "length (wr_calls (m25p80_write_reg spi nor flash opcode buf len)) \<le> 1"
  by (simp add: m25p80_write_reg_def m25p80_proto2nbits_def Let_def
        split: if_splits option.splits)

text \<open>
  Claim C7.  A register write with a payload of \<open>len \<le> 15\<close> bytes (what the
  capacity check admits) leaves the opcode in byte 0 of the scratch buffer and
  the payload in the bytes after it.  When the data lane width equals the opcode
  lane width the transaction is the single phase of length \<open>1 + len\<close>; otherwise
  it is the 1-byte opcode phase followed by a send phase of length \<open>len\<close> at the
  data lane width, starting at byte 1 of the buffer.
\<close>

theorem m25p80_write_reg_payload:
  assumes buf: "length (command flash) = MAX_CMD_SIZE"
      and len: "unat len \<le> 15"
      and payload: "unat len \<le> length b"
  shows "command (wr_flash (m25p80_write_reg spi nor flash opcode (Some b) len))
           = opcode # take (unat len) b @ drop (1 + unat len) (command flash)
       \<and> wr_calls (m25p80_write_reg spi nor flash opcode (Some b) len)
           = [if SNOR_PROTO_DATA_FROM_PROTO (reg_proto nor) = SNOR_PROTO_CODE_FROM_PROTO (reg_proto nor)
              then [\<lparr>xfer_len = 1 + len, tx_buf = Command 0, rx_buf = NULL,
                      tx_nbits = SNOR_PROTO_CODE_FROM_PROTO (reg_proto nor), rx_nbits = 0\<rparr>]
              else [\<lparr>xfer_len = 1, tx_buf = Command 0, rx_buf = NULL,
                      tx_nbits = SNOR_PROTO_CODE_FROM_PROTO (reg_proto nor), rx_nbits = 0\<rparr>,
                    \<lparr>xfer_len = len, tx_buf = Command 1, rx_buf = NULL,
                      tx_nbits = SNOR_PROTO_DATA_FROM_PROTO (reg_proto nor), rx_nbits = 0\<rparr>]]
       \<and> \<not> wr_overrun (m25p80_write_reg spi nor flash opcode (Some b) len)"
proof -
  have ok: "\<not> (of_nat MAX_CMD_SIZE :: c_int) <s len + 1" using len by (rule capacity_ok)
  have l: "1 + length (take (unat len) b) \<le> length (command flash)"
    using buf len payload by (simp add: MAX_CMD_SIZE_def)
  have st: "store_bytes ((command flash)[0 := opcode]) 1 (take (unat len) b)
              = opcode # take (unat len) b @ drop (1 + unat len) (command flash)"
    using store_bytes_at_1 [OF l] payload by (simp add: min_def)
  show ?thesis
    using ok st buf len payload
    by (simp add: m25p80_write_reg_def m25p80_proto2nbits_def Let_def zero_xfer_def
          replicate_2 fits_def MAX_CMD_SIZE_def)
qed

theorem m25p80_write_reg_payload_witness:
  "length (command example_flash) = MAX_CMD_SIZE
   \<and> unat (2 :: c_int) \<le> 15 \<and> unat (2 :: c_int) \<le> length [0x12, 0x34 :: u8]
   \<and> take 4 (command (wr_flash (m25p80_write_reg (bus_reports 0 3 []) example_nor example_flash
        0x01 (Some [0x12, 0x34]) 2))) = [0x01, 0x12, 0x34, 0xff]
   \<and> wr_calls (m25p80_write_reg (bus_reports 0 3 []) example_nor example_flash
        0x01 (Some [0x12, 0x34]) 2)
      = [[\<lparr>xfer_len = 3, tx_buf = Command 0, rx_buf = NULL, tx_nbits = 1, rx_nbits = 0\<rparr>]]
   \<and> wr_calls (m25p80_write_reg (bus_reports 0 3 []) (example_nor\<lparr>reg_proto := lanes 1 1 4\<rparr>)
        example_flash 0x01 (Some [0x12, 0x34]) 2)
      = [[\<lparr>xfer_len = 1, tx_buf = Command 0, rx_buf = NULL, tx_nbits = 1, rx_nbits = 0\<rparr>,
          \<lparr>xfer_len = 2, tx_buf = Command 1, rx_buf = NULL, tx_nbits = 4, rx_nbits = 0\<rparr>]]"
proof -
  have l: "length (command example_flash) = MAX_CMD_SIZE"
    by (simp add: example_flash_def MAX_CMD_SIZE_def)
  have n: "unat (2 :: c_int) \<le> 15" by simp
  have p: "unat (2 :: c_int) \<le> length [0x12, 0x34 :: u8]" by simp
  have c: "command example_flash = replicate 16 0xff" by (simp add: example_flash_def)
  have r1: "reg_proto example_nor = lanes 1 1 1"
    and r2: "reg_proto (example_nor\<lparr>reg_proto := lanes 1 1 4\<rparr>) = lanes 1 1 4"
    by (simp_all add: example_nor_def)
  show ?thesis
    using l n p
      m25p80_write_reg_payload [OF l n p, of "bus_reports 0 3 []" example_nor "0x01"]
      m25p80_write_reg_payload [OF l n p, of "bus_reports 0 3 []"
        "example_nor\<lparr>reg_proto := lanes 1 1 4\<rparr>" "0x01"]
    unfolding c r1 r2 MAX_CMD_SIZE_def by (simp add: lanes_def)
qed

section \<open>Register read\<close>

lemma read_reg_reject:
  "(of_nat MAX_CMD_SIZE :: c_int) <s len + 1 \<Longrightarrow>
     m25p80_read_reg spi nor flash code val len = rejected flash val"
  by (simp add: m25p80_read_reg_def rejected_def)

lemma read_reg_calls:
  "\<not> (of_nat MAX_CMD_SIZE :: c_int) <s len + 1 \<Longrightarrow>
     rr_calls (m25p80_read_reg spi nor flash code val len)
       = [[\<lparr>xfer_len = 1, tx_buf = Command 0, rx_buf = NULL,
             tx_nbits = SNOR_PROTO_CODE_FROM_PROTO (reg_proto nor), rx_nbits = 0\<rparr>,
           \<lparr>xfer_len = len, tx_buf = NULL, rx_buf = Command 1, tx_nbits = 0,
             rx_nbits = SNOR_PROTO_DATA_FROM_PROTO (reg_proto nor)\<rparr>]]"
  by (simp add: m25p80_read_reg_def m25p80_proto2nbits_def Let_def zero_xfer_def replicate_2)

lemma read_reg_ret:
  "rr_calls (m25p80_read_reg spi nor flash code val len) \<noteq> [] \<Longrightarrow>
     rr_ret (m25p80_read_reg spi nor flash code val len)
       = status (spi (hd (rr_calls (m25p80_read_reg spi nor flash code val len)))
                     ((command flash)[0 := code]) [])"
  by (simp add: m25p80_read_reg_def m25p80_proto2nbits_def Let_def split: if_splits)

lemma read_reg_calls_le:
  "length (rr_calls (m25p80_read_reg spi nor flash code val len)) \<le> 1"
  by (simp add: m25p80_read_reg_def m25p80_proto2nbits_def Let_def split: if_splits)

lemma read_reg_val_error:
  "rr_ret (m25p80_read_reg spi nor flash code val len) <s 0 \<Longrightarrow>
     rr_val (m25p80_read_reg spi nor flash code val len) = val"
  by (simp add: m25p80_read_reg_def m25p80_proto2nbits_def Let_def split: if_splits)

lemma read_reg_val_success:
  "\<not> rr_ret (m25p80_read_reg spi nor flash code val len) <s 0 \<Longrightarrow>
     rr_val (m25p80_read_reg spi nor flash code val len)
       = store_bytes val 0
           (take (unat len)
              (drop 1 (command (rr_flash (m25p80_read_reg spi nor flash code val len)))))"
  by (simp add: m25p80_read_reg_def m25p80_proto2nbits_def Let_def EINVAL_def
        word_sless_alt split: if_splits)

text \<open>
  Claim C3.  A register read of 15 bytes passes the capacity check and reaches
  the transport, with the opcode phase and a 15-byte receive phase.  A register
  read of 16 bytes is refused: it returns \<open>-EINVAL\<close>, the transport is never
  invoked, and the device state and the caller's buffer are as before.  In
  general (for every \<open>int\<close> length whose successor is representable) the call is
  refused exactly when \<open>len + 1\<close> exceeds the 16-byte capacity.
\<close>

theorem m25p80_read_reg_capacity:
  "rr_calls (m25p80_read_reg spi nor flash code val 15)
     = [[\<lparr>xfer_len = 1, tx_buf = Command 0, rx_buf = NULL,
           tx_nbits = SNOR_PROTO_CODE_FROM_PROTO (reg_proto nor), rx_nbits = 0\<rparr>,
         \<lparr>xfer_len = 15, tx_buf = NULL, rx_buf = Command 1, tx_nbits = 0,
           rx_nbits = SNOR_PROTO_DATA_FROM_PROTO (reg_proto nor)\<rparr>]]
   \<and> m25p80_read_reg spi nor flash code val 16 = rejected flash val
   \<and> (sint len \<noteq> 2147483647 \<longrightarrow>
        (m25p80_read_reg spi nor flash code val len = rejected flash val
           \<longleftrightarrow> int MAX_CMD_SIZE < sint len + 1))"
proof -
  have c15: "\<not> (of_nat MAX_CMD_SIZE :: c_int) <s 15 + 1"
    by (simp add: MAX_CMD_SIZE_def word_sless_alt)
  have c16: "(of_nat MAX_CMD_SIZE :: c_int) <s 16 + 1"
    by (simp add: MAX_CMD_SIZE_def word_sless_alt)
  have gen: "m25p80_read_reg spi nor flash code val len = rejected flash val
           \<longleftrightarrow> int MAX_CMD_SIZE < sint len + 1" if ok: "sint len \<noteq> 2147483647"
  proof (cases "(of_nat MAX_CMD_SIZE :: c_int) <s len + 1")
    case True
    then show ?thesis using capacity_check [OF ok] by (simp add: read_reg_reject)
  next
    case False
    then have "rr_calls (m25p80_read_reg spi nor flash code val len) \<noteq> []"
      by (simp add: read_reg_calls)
    then have "m25p80_read_reg spi nor flash code val len \<noteq> rejected flash val"
      by (auto simp: rejected_def)
    then show ?thesis using False capacity_check [OF ok] by simp
  qed
  show ?thesis
    using read_reg_calls [OF c15, of spi nor flash code val]
      read_reg_reject [OF c16, of spi nor flash code val] gen
    by simp
qed

theorem m25p80_read_reg_capacity_witness:
  "sint (3 :: c_int) \<noteq> 2147483647
   \<and> \<not> int MAX_CMD_SIZE < sint (3 :: c_int) + 1
   \<and> m25p80_read_reg (bus_reports 0 4 [1, 2, 3]) example_nor example_flash 0x9f [0, 0, 0] 3
        \<noteq> rejected example_flash [0, 0, 0]
   \<and> sint (200 :: c_int) \<noteq> 2147483647
   \<and> m25p80_read_reg (bus_reports 0 4 [1, 2, 3]) example_nor example_flash 0x9f [0, 0, 0] 200
        = rejected example_flash [0, 0, 0]"
  using m25p80_read_reg_capacity [of "bus_reports 0 4 [1, 2, 3]" example_nor example_flash
          "0x9f" "[0, 0, 0]" 3]
    m25p80_read_reg_capacity [of "bus_reports 0 4 [1, 2, 3]" example_nor example_flash
          "0x9f" "[0, 0, 0]" 200]
  by (simp add: MAX_CMD_SIZE_def)

text \<open>
  Claim C10.  Whenever the transport reports an error (a negative status) for a
  register read, that status is what the call returns and the caller's output
  buffer is exactly as it was; the same holds for every negative return.  The
  received bytes are copied out of the command buffer only when the status is
  not negative.
\<close>

theorem m25p80_read_reg_error_keeps_val:
  "(rr_calls (m25p80_read_reg spi nor flash code val len) = [phases]
      \<and> status (spi phases ((command flash)[0 := code]) []) <s 0 \<longrightarrow>
      rr_ret (m25p80_read_reg spi nor flash code val len)
        = status (spi phases ((command flash)[0 := code]) [])
      \<and> rr_val (m25p80_read_reg spi nor flash code val len) = val)
   \<and> (rr_ret (m25p80_read_reg spi nor flash code val len) <s 0 \<longrightarrow>
      rr_val (m25p80_read_reg spi nor flash code val len) = val)
   \<and> (\<not> rr_ret (m25p80_read_reg spi nor flash code val len) <s 0 \<longrightarrow>
      rr_val (m25p80_read_reg spi nor flash code val len)
        = store_bytes val 0
            (take (unat len)
               (drop 1 (command (rr_flash (m25p80_read_reg spi nor flash code val len))))))"
proof -
  have 1: "rr_ret (m25p80_read_reg spi nor flash code val len)
             = status (spi phases ((command flash)[0 := code]) [])"
    if "rr_calls (m25p80_read_reg spi nor flash code val len) = [phases]"
    using read_reg_ret [of spi nor flash code val len] that by simp
  show ?thesis
    using 1 read_reg_val_error [of spi nor flash code val len]
      read_reg_val_success [of spi nor flash code val len]
    by metis
qed

theorem m25p80_read_reg_error_keeps_val_witness:
  "rr_calls (m25p80_read_reg (bus_reports (- 5) 0 [1, 2, 3]) example_nor example_flash 0x9f
       [7, 8, 9] 3)
     = [[\<lparr>xfer_len = 1, tx_buf = Command 0, rx_buf = NULL, tx_nbits = 1, rx_nbits = 0\<rparr>,
         \<lparr>xfer_len = 3, tx_buf = NULL, rx_buf = Command 1, tx_nbits = 0, rx_nbits = 1\<rparr>]]
   \<and> status (bus_reports (- 5) 0 [1, 2, 3]
        [\<lparr>xfer_len = 1, tx_buf = Command 0, rx_buf = NULL, tx_nbits = 1, rx_nbits = 0\<rparr>,
         \<lparr>xfer_len = 3, tx_buf = NULL, rx_buf = Command 1, tx_nbits = 0, rx_nbits = 1\<rparr>]
        ((command example_flash)[0 := 0x9f]) []) <s 0
   \<and> rr_ret (m25p80_read_reg (bus_reports (- 5) 0 [1, 2, 3]) example_nor example_flash 0x9f
       [7, 8, 9] 3) = - 5
   \<and> rr_val (m25p80_read_reg (bus_reports (- 5) 0 [1, 2, 3]) example_nor example_flash 0x9f
       [7, 8, 9] 3) = [7, 8, 9]
   \<and> \<not> rr_ret (m25p80_read_reg (bus_reports 0 4 [1, 2, 3]) example_nor example_flash 0x9f
       [7, 8, 9] 3) <s 0
   \<and> rr_val (m25p80_read_reg (bus_reports 0 4 [1, 2, 3]) example_nor example_flash 0x9f
       [7, 8, 9] 3) = [1, 2, 3]"
proof -
  have c: "\<not> (of_nat MAX_CMD_SIZE :: c_int) <s 3 + 1"
    by (simp add: MAX_CMD_SIZE_def word_sless_alt)
  have calls: "rr_calls (m25p80_read_reg (bus_reports (- 5) 0 [1, 2, 3]) example_nor
       example_flash 0x9f [7, 8, 9] 3)
     = [[\<lparr>xfer_len = 1, tx_buf = Command 0, rx_buf = NULL, tx_nbits = 1, rx_nbits = 0\<rparr>,
         \<lparr>xfer_len = 3, tx_buf = NULL, rx_buf = Command 1, tx_nbits = 0, rx_nbits = 1\<rparr>]]"
    using read_reg_calls [OF c] by (simp add: example_nor_def lanes_def)
  have st: "status (bus_reports (- 5) 0 [1, 2, 3] p cmd []) <s 0" for p cmd
    by (simp add: bus_reports_def word_sless_alt)
  have ok: "\<not> rr_ret (m25p80_read_reg (bus_reports 0 4 [1, 2, 3]) example_nor example_flash
       0x9f [7, 8, 9] 3) <s 0"
    by code_simp
  have cp: "store_bytes [7, 8, 9] 0 (take (unat (3 :: c_int)) (drop 1 (command (rr_flash
       (m25p80_read_reg (bus_reports 0 4 [1, 2, 3]) example_nor example_flash 0x9f
          [7, 8, 9] 3))))) = [1, 2, 3]"
    by code_simp
  show ?thesis
    using calls st ok cp
      m25p80_read_reg_error_keeps_val [of "bus_reports (- 5) 0 [1, 2, 3]" example_nor
        example_flash "0x9f" "[7, 8, 9]" 3
        "[\<lparr>xfer_len = 1, tx_buf = Command 0, rx_buf = NULL, tx_nbits = 1, rx_nbits = 0\<rparr>,
          \<lparr>xfer_len = 3, tx_buf = NULL, rx_buf = Command 1, tx_nbits = 0, rx_nbits = 1\<rparr>]"]
      m25p80_read_reg_error_keeps_val [of "bus_reports 0 4 [1, 2, 3]" example_nor
        example_flash "0x9f" "[7, 8, 9]" 3 "[]"]
    by (simp add: bus_reports_def)
qed

section \<open>Transport errors\<close>

text \<open>
  Claim C4, as stated: every operation hands a transport error to its caller.
  With a transport that fails every transfer with status -5, the bulk read and
  the erase still return 0, and the bulk write, which returns no status at all,
  leaves the same result as with a transport that succeeds.
\<close>

theorem transport_error_counterexample:
  "status (bus_reports (- 5) 0 [] [] [] []) <s 0
   \<and> r_ret (m25p80_read shift_zero (bus_reports (- 5) 0 []) example_nor example_flash 0x1000
        (256 :: 64 word) 0 []) = 0
   \<and> e_ret (m25p80_erase shift_zero (bus_reports (- 5) 0 []) example_nor example_flash 0xFF00)
        = 0
   \<and> m25p80_write shift_zero 0xad (bus_reports (- 5) 0 []) example_nor example_flash 0x1000
        (256 :: 64 word) 0 []
     = m25p80_write shift_zero 0xad (bus_reports 0 0 []) example_nor example_flash 0x1000
        (256 :: 64 word) 0 []"
  by code_simp

text \<open>
  Claim C4, amended: for a register read and a register write, the status that
  the transport reports, a failure included, is what the call returns, and the
  transport is invoked at most once per call.
\<close>

theorem register_transport_status_returned:
  "(rr_calls (m25p80_read_reg spi nor flash code val len) = [p] \<longrightarrow>
      rr_ret (m25p80_read_reg spi nor flash code val len)
        = status (spi p ((command flash)[0 := code]) []))
   \<and> length (rr_calls (m25p80_read_reg spi nor flash code val len)) \<le> 1
   \<and> (wr_calls (m25p80_write_reg spi nor flash opcode buf n) = [q] \<longrightarrow>
      wr_ret (m25p80_write_reg spi nor flash opcode buf n)
        = status (spi q (command (wr_flash (m25p80_write_reg spi nor flash opcode buf n))) []))
   \<and> length (wr_calls (m25p80_write_reg spi nor flash opcode buf n)) \<le> 1"
proof -
  have 1: "rr_ret (m25p80_read_reg spi nor flash code val len)
             = status (spi p ((command flash)[0 := code]) [])"
    if "rr_calls (m25p80_read_reg spi nor flash code val len) = [p]"
    using read_reg_ret [of spi nor flash code val len] that by simp
  have 2: "wr_ret (m25p80_write_reg spi nor flash opcode buf n)
        = status (spi q (command (wr_flash (m25p80_write_reg spi nor flash opcode buf n))) [])"
    if "wr_calls (m25p80_write_reg spi nor flash opcode buf n) = [q]"
    using write_reg_ret [of spi nor flash opcode buf n] that by simp
  show ?thesis
    using 1 2 read_reg_calls_le [of spi nor flash code val len]
      write_reg_calls_le [of spi nor flash opcode buf n]
    by simp
qed

theorem register_transport_status_returned_witness:
  "rr_calls (m25p80_read_reg (bus_reports (- 5) 0 []) example_nor example_flash 0x05 [0] 1)
     = [[\<lparr>xfer_len = 1, tx_buf = Command 0, rx_buf = NULL, tx_nbits = 1, rx_nbits = 0\<rparr>,
         \<lparr>xfer_len = 1, tx_buf = NULL, rx_buf = Command 1, tx_nbits = 0, rx_nbits = 1\<rparr>]]
   \<and> rr_ret (m25p80_read_reg (bus_reports (- 5) 0 []) example_nor example_flash 0x05 [0] 1)
     = - 5
   \<and> wr_calls (m25p80_write_reg (bus_reports (- 5) 0 []) example_nor example_flash 0x06 None 0)
     = [[\<lparr>xfer_len = 1, tx_buf = Command 0, rx_buf = NULL, tx_nbits = 1, rx_nbits = 0\<rparr>]]
   \<and> wr_ret (m25p80_write_reg (bus_reports (- 5) 0 []) example_nor example_flash 0x06 None 0)
     = - 5"
proof -
  have c: "\<not> (of_nat MAX_CMD_SIZE :: c_int) <s 1 + 1"
    by (simp add: MAX_CMD_SIZE_def word_sless_alt)
  have rc: "rr_calls (m25p80_read_reg (bus_reports (- 5) 0 []) example_nor example_flash 0x05
       [0] 1)
     = [[\<lparr>xfer_len = 1, tx_buf = Command 0, rx_buf = NULL, tx_nbits = 1, rx_nbits = 0\<rparr>,
         \<lparr>xfer_len = 1, tx_buf = NULL, rx_buf = Command 1, tx_nbits = 0, rx_nbits = 1\<rparr>]]"
    using read_reg_calls [OF c] by (simp add: example_nor_def lanes_def)
  have wc: "wr_calls (m25p80_write_reg (bus_reports (- 5) 0 []) example_nor example_flash 0x06
       None 0)
     = [[\<lparr>xfer_len = 1, tx_buf = Command 0, rx_buf = NULL, tx_nbits = 1, rx_nbits = 0\<rparr>]]"
    by code_simp
  show ?thesis
    using rc wc
      register_transport_status_returned [of "bus_reports (- 5) 0 []" example_nor
        example_flash "0x05" "[0]" 1
        "[\<lparr>xfer_len = 1, tx_buf = Command 0, rx_buf = NULL, tx_nbits = 1, rx_nbits = 0\<rparr>,
          \<lparr>xfer_len = 1, tx_buf = NULL, rx_buf = Command 1, tx_nbits = 0, rx_nbits = 1\<rparr>]"
        "0x06" None 0
        "[\<lparr>xfer_len = 1, tx_buf = Command 0, rx_buf = NULL, tx_nbits = 1, rx_nbits = 0\<rparr>]"]
    by (simp add: bus_reports_def)
qed

end
